theory Spec2Isabelle
  imports Main "HOL-Library.Sublist"
begin

section \<open>Python values, exceptions and observable events\<close>

text \<open>
  The script \<^verbatim>\<open>csvtojson.py\<close> reads a CSV file of exchange rates and writes a JSON
  document. Text is a list of characters with code points below 256. Everything the
  script calls from the standard library (\<^verbatim>\<open>float\<close>, \<^verbatim>\<open>datetime.strptime\<close>,
  \<^verbatim>\<open>strftime\<close>, \<^verbatim>\<open>csv.reader\<close>, text-mode \<^verbatim>\<open>open\<close>) is modelled as an
  executable function following CPython's behaviour for the arguments the script passes.

  A Python float is kept as the decimal numeral it was read from: sign, decimal
  coefficient and power of ten (\<open>Finite neg c e\<close> stands for \<open>(-1)^neg * c * 10^e\<close>).
  CPython rounds this number to the nearest binary64 value; the rounding is not part of
  the model.
\<close>

datatype pyfloat = Finite bool nat int | Inf bool | NaN

datatype pyval =
    Str string
  | Float pyfloat
  | List "pyval list"
  | Dict "(string \<times> pyval) list"

datatype exn_kind =
    FileNotFoundError | PermissionError | OSError
  | StopIteration | ValueError | csv_Error

text \<open>An exception is its class and the text \<^verbatim>\<open>str(e)\<close> gives.\<close>

datatype exn = Exn exn_kind string

fun exn_str :: "exn \<Rightarrow> string" where
  "exn_str (Exn k msg) = msg"

text \<open>
  What a run does to the outside world, in order: a \<^verbatim>\<open>print\<close> call with its text (a
  line of the standard output), the input file being opened and closed by its
  \<^verbatim>\<open>with\<close> block, the output file being opened, \<^verbatim>\<open>json.dump\<close> writing a value to it,
  and the output file being closed.
\<close>

datatype event =
    Print string
  | OpenRead string
  | CloseRead string
  | OpenWrite string
  | Dump string pyval
  | CloseWrite string

fun is_write :: "event \<Rightarrow> bool" where
  "is_write (OpenWrite p) = True"
| "is_write (Dump p v) = True"
| "is_write (CloseWrite p) = True"
| "is_write ev = False"

fun is_print :: "event \<Rightarrow> bool" where
  "is_print (Print s) = True"
| "is_print ev = False"

section \<open>Characters and decimal numerals\<close>

definition is_digit :: "char \<Rightarrow> bool" where
  "is_digit c = (c \<in> set ''0123456789'')"

definition is_nonzero_digit :: "char \<Rightarrow> bool" where
  "is_nonzero_digit c = (c \<in> set ''123456789'')"

definition digit_val :: "char \<Rightarrow> nat" where
  "digit_val c =
     (case map_of (zip ''0123456789'' [0, 1, 2, 3, 4, 5, 6, 7, 8, 9]) c of
        Some n \<Rightarrow> n | None \<Rightarrow> 0)"

definition dec :: "string \<Rightarrow> nat" where
  "dec s = foldl (\<lambda>n c. 10 * n + digit_val c) 0 s"

definition digit_char :: "nat \<Rightarrow> char" where
  "digit_char n = ''0123456789'' ! (n mod 10)"

text \<open>
  Whitespace as \<^verbatim>\<open>float\<close> strips it: the ASCII characters tab, line feed, vertical
  tab, form feed, carriage return and space, and the two Latin-1 spaces U+0085 and U+00A0
  (CPython maps non-ASCII whitespace to a space before parsing).
\<close>

definition is_space :: "char \<Rightarrow> bool" where
  "is_space c =
     (c \<in> set [CHR 0x09, CHR 0x0A, CHR 0x0B, CHR 0x0C, CHR 0x0D, CHR 0x20, CHR 0x85, CHR 0xA0])"

definition to_lower :: "char \<Rightarrow> char" where
  "to_lower c =
     (case map_of (zip ''ABCDEFGHIJKLMNOPQRSTUVWXYZ'' ''abcdefghijklmnopqrstuvwxyz'') c of
        Some l \<Rightarrow> l | None \<Rightarrow> c)"

section \<open>\<^verbatim>\<open>float(rate)\<close>\<close>

text \<open>
  \<^verbatim>\<open>float\<close> of a string, as CPython computes it: when the string holds underscores,
  each must stand between two digits and all are removed; then whitespace is stripped at
  both ends (an empty rest is an error); the rest must be, as a whole, a decimal numeral
  with optional sign, fraction and exponent, or a signed \<^verbatim>\<open>inf\<close>, \<^verbatim>\<open>infinity\<close> or
  \<^verbatim>\<open>nan\<close> in any letter case. \<open>None\<close> is \<^verbatim>\<open>ValueError\<close>; no other exception is
  raised (overflow gives an infinity in CPython).
\<close>

definition strip :: "string \<Rightarrow> string" where
  "strip s = rev (dropWhile is_space (rev (dropWhile is_space s)))"

fun underscores_ok :: "char \<Rightarrow> string \<Rightarrow> bool" where
  "underscores_ok prev [] = (prev \<noteq> CHR ''_'')"
| "underscores_ok prev (c # cs) =
     ((if c = CHR ''_'' then is_digit prev
       else if prev = CHR ''_'' then is_digit c else True)
      \<and> underscores_ok c cs)"

definition take_sign :: "string \<Rightarrow> bool \<times> string" where
  "take_sign s =
     (case s of
        [] \<Rightarrow> (False, [])
      | c # cs \<Rightarrow>
          if c = CHR ''-'' then (True, cs)
          else if c = CHR ''+'' then (False, cs)
          else (False, s))"

text \<open>
  The numeral: sign, digits, optional point and digits, at least one digit in all; then
  an optional exponent (\<^verbatim>\<open>e\<close> or \<^verbatim>\<open>E\<close>, sign, at least one digit). Anything left
  over makes the conversion fail.
\<close>

definition strtod :: "string \<Rightarrow> pyfloat option" where
  "strtod s =
     (let (neg, s1) = take_sign s;
          ip = takeWhile is_digit s1;
          r1 = dropWhile is_digit s1;
          (fp, r2) =
            (case r1 of
               [] \<Rightarrow> ([], [])
             | c # t \<Rightarrow>
                 if c = CHR ''.'' then (takeWhile is_digit t, dropWhile is_digit t)
                 else ([], r1))
      in if ip = [] \<and> fp = [] then None
         else
           (case r2 of
              [] \<Rightarrow> Some (Finite neg (dec (ip @ fp)) (- int (length fp)))
            | c # t \<Rightarrow>
                if c = CHR ''e'' \<or> c = CHR ''E'' then
                  (let (eneg, t1) = take_sign t;
                       ed = takeWhile is_digit t1
                   in if ed = [] \<or> dropWhile is_digit t1 \<noteq> [] then None
                      else Some (Finite neg (dec (ip @ fp))
                             ((if eneg then - int (dec ed) else int (dec ed))
                              - int (length fp))))
                else None))"

definition parse_inf_or_nan :: "string \<Rightarrow> pyfloat option" where
  "parse_inf_or_nan s =
     (let (neg, s1) = take_sign s;
          w = map to_lower s1
      in if w = ''inf'' \<or> w = ''infinity'' then Some (Inf neg)
         else if w = ''nan'' then Some NaN
         else None)"

definition float_from_string_inner :: "string \<Rightarrow> pyfloat option" where
  "float_from_string_inner s =
     (let t = strip s
      in if t = [] then None
         else (case strtod t of
                 Some f \<Rightarrow> Some f
               | None \<Rightarrow> parse_inf_or_nan t))"

definition py_float :: "string \<Rightarrow> pyfloat option" where
  "py_float s =
     (if CHR ''_'' \<in> set s then
        (if underscores_ok (CHR 0x00) s
         then float_from_string_inner (filter (\<lambda>c. c \<noteq> CHR ''_'') s)
         else None)
      else float_from_string_inner s)"

section \<open>\<^verbatim>\<open>datetime.strptime(date_str, '%m/%d/%Y')\<close> and \<^verbatim>\<open>strftime('%Y-%m-%d')\<close>\<close>

text \<open>
  \<^verbatim>\<open>strptime\<close> turns the format into the regular expression
  \<^verbatim>\<open>(?P<m>1[0-2]|0[1-9]|[1-9])/(?P<d>3[0-1]|[1-2]\d|0[1-9]|[1-9]| [1-9])/(?P<Y>\d\d\d\d)\<close>,
  matches it at the start of the string and rejects the string when text remains after
  the match. No alternative of a group holds a slash, so the string matches exactly when
  its two slashes cut it into three parts that match the three groups. The numbers must
  then form a date of the proleptic Gregorian calendar with a year from 1 to 9999.
  \<open>None\<close> is \<^verbatim>\<open>ValueError\<close>.
\<close>

fun split_slash :: "string \<Rightarrow> string list" where
  "split_slash [] = [[]]"
| "split_slash (c # cs) =
     (if c = CHR ''/'' then [] # split_slash cs
      else (case split_slash cs of
              [] \<Rightarrow> [[c]]
            | p # ps \<Rightarrow> (c # p) # ps))"

definition re_m :: "string \<Rightarrow> nat option" where
  "re_m s =
     (case s of
        [a, b] \<Rightarrow>
          if a = CHR ''1'' \<and> b \<in> set ''012'' then Some (dec s)
          else if a = CHR ''0'' \<and> is_nonzero_digit b then Some (dec s)
          else None
      | [a] \<Rightarrow> if is_nonzero_digit a then Some (dec s) else None
      | _ \<Rightarrow> None)"

definition re_d :: "string \<Rightarrow> nat option" where
  "re_d s =
     (case s of
        [a, b] \<Rightarrow>
          if a = CHR ''3'' \<and> b \<in> set ''01'' then Some (dec s)
          else if a \<in> set ''12'' \<and> is_digit b then Some (dec s)
          else if a = CHR ''0'' \<and> is_nonzero_digit b then Some (dec s)
          else if a = CHR '' '' \<and> is_nonzero_digit b then Some (dec [b])
          else None
      | [a] \<Rightarrow> if is_nonzero_digit a then Some (dec s) else None
      | _ \<Rightarrow> None)"

definition re_Y :: "string \<Rightarrow> nat option" where
  "re_Y s = (if length s = 4 \<and> list_all is_digit s then Some (dec s) else None)"

definition is_leap :: "nat \<Rightarrow> bool" where
  "is_leap y = (y mod 4 = 0 \<and> (y mod 100 \<noteq> 0 \<or> y mod 400 = 0))"

definition days_in_month :: "nat \<Rightarrow> nat \<Rightarrow> nat" where
  "days_in_month y m =
     (if m = 2 then (if is_leap y then 29 else 28)
      else if m \<in> set [4, 6, 9, 11] then 30
      else 31)"

text \<open>A date is (year, month, day).\<close>

definition valid_date :: "nat \<times> nat \<times> nat \<Rightarrow> bool" where
  "valid_date dt =
     (case dt of (y, m, d) \<Rightarrow>
        1 \<le> y \<and> y \<le> 9999 \<and> 1 \<le> m \<and> m \<le> 12 \<and> 1 \<le> d \<and> d \<le> days_in_month y m)"

definition strptime :: "string \<Rightarrow> (nat \<times> nat \<times> nat) option" where
  "strptime s =
     (case split_slash s of
        [ms, ds, ys] \<Rightarrow>
          (case (re_m ms, re_d ds, re_Y ys) of
             (Some m, Some d, Some y) \<Rightarrow>
               if valid_date (y, m, d) then Some (y, m, d) else None
           | _ \<Rightarrow> None)
      | _ \<Rightarrow> None)"

definition pad2 :: "nat \<Rightarrow> string" where
  "pad2 n = [digit_char (n div 10), digit_char n]"

definition pad4 :: "nat \<Rightarrow> string" where
  "pad4 n = [digit_char (n div 1000), digit_char (n div 100), digit_char (n div 10), digit_char n]"

text \<open>
  \<^verbatim>\<open>strftime('%Y-%m-%d')\<close>, as documented: the year on four digits, month and day
  on two, padded with zeros.
\<close>

definition strftime :: "nat \<times> nat \<times> nat \<Rightarrow> string" where
  "strftime dt = (case dt of (y, m, d) \<Rightarrow> pad4 y @ ''-'' @ pad2 m @ ''-'' @ pad2 d)"

section \<open>Text-mode \<^verbatim>\<open>open(input_file, 'r')\<close> and \<^verbatim>\<open>csv.reader\<close>\<close>

text \<open>
  A file opened in text mode with the default \<^verbatim>\<open>newline\<close> translates \<^verbatim>\<open>\r\n\<close> and a
  lone \<^verbatim>\<open>\r\<close> to \<^verbatim>\<open>\n\<close>, and iterating over it gives the lines, each with its
  line feed (the last line may have none).
\<close>

fun universal_newlines :: "string \<Rightarrow> string" where
  "universal_newlines [] = []"
| "universal_newlines [c] = [if c = CHR 0x0D then CHR 0x0A else c]"
| "universal_newlines (c # d # cs) =
     (if c = CHR 0x0D then
        (if d = CHR 0x0A then CHR 0x0A # universal_newlines cs
         else CHR 0x0A # universal_newlines (d # cs))
      else c # universal_newlines (d # cs))"

fun split_lines :: "string \<Rightarrow> string list" where
  "split_lines [] = []"
| "split_lines (c # cs) =
     (if c = CHR 0x0A then [c] # split_lines cs
      else (case split_lines cs of
              [] \<Rightarrow> [[c]]
            | l # ls \<Rightarrow> (c # l) # ls))"

definition file_lines :: "string \<Rightarrow> string list" where
  "file_lines text = split_lines (universal_newlines text)"

text \<open>
  \<^verbatim>\<open>csv.reader\<close> with the default dialect (delimiter \<^verbatim>\<open>,\<close>, quote character
  \<^verbatim>\<open>"\<close>, doubled quotes, no escape character, not strict) is CPython's state machine
  over the characters of each line, followed by an end-of-line mark (\<open>None\<close> below).
  A field may hold at most 131072 characters.
\<close>

datatype parser_state =
    START_RECORD | START_FIELD | IN_FIELD | IN_QUOTED_FIELD
  | QUOTE_IN_QUOTED_FIELD | EAT_CRNL

record reader =
  rd_state :: parser_state
  rd_fields :: "string list"
  rd_field :: string

definition field_limit :: nat where
  "field_limit = 131072"

definition parse_reset :: reader where
  "parse_reset = \<lparr>rd_state = START_RECORD, rd_fields = [], rd_field = []\<rparr>"

definition parse_save_field :: "reader \<Rightarrow> reader" where
  "parse_save_field r = r\<lparr>rd_fields := rd_fields r @ [rd_field r], rd_field := []\<rparr>"

definition parse_add_char :: "reader \<Rightarrow> char \<Rightarrow> exn + reader" where
  "parse_add_char r c =
     (if length (rd_field r) \<ge> field_limit
      then Inl (Exn csv_Error ''field larger than field limit (131072)'')
      else Inr (r\<lparr>rd_field := rd_field r @ [c]\<rparr>))"

definition is_eol :: "char option \<Rightarrow> bool" where
  "is_eol c = (c = Some (CHR 0x0A) \<or> c = Some (CHR 0x0D) \<or> c = None)"

definition end_of_line :: "reader \<Rightarrow> char option \<Rightarrow> reader" where
  "end_of_line r c =
     (parse_save_field r)\<lparr>rd_state := (if c = None then START_RECORD else EAT_CRNL)\<rparr>"

definition add_char_then :: "parser_state \<Rightarrow> reader \<Rightarrow> char \<Rightarrow> exn + reader" where
  "add_char_then st r c =
     (case parse_add_char r c of
        Inl e \<Rightarrow> Inl e
      | Inr r' \<Rightarrow> Inr (r'\<lparr>rd_state := st\<rparr>))"

definition start_field :: "reader \<Rightarrow> char option \<Rightarrow> exn + reader" where
  "start_field r c =
     (if is_eol c then Inr (end_of_line r c)
      else if c = Some (CHR 0x22) then Inr (r\<lparr>rd_state := IN_QUOTED_FIELD\<rparr>)
      else if c = Some (CHR '','') then Inr (parse_save_field r)
      else add_char_then IN_FIELD r (the c))"

definition parse_process_char :: "reader \<Rightarrow> char option \<Rightarrow> exn + reader" where
  "parse_process_char r c =
     (case rd_state r of
        START_RECORD \<Rightarrow>
          if c = None then Inr r
          else if is_eol c then Inr (r\<lparr>rd_state := EAT_CRNL\<rparr>)
          else start_field (r\<lparr>rd_state := START_FIELD\<rparr>) c
      | START_FIELD \<Rightarrow> start_field r c
      | IN_FIELD \<Rightarrow>
          if is_eol c then Inr (end_of_line r c)
          else if c = Some (CHR '','') then Inr ((parse_save_field r)\<lparr>rd_state := START_FIELD\<rparr>)
          else add_char_then IN_FIELD r (the c)
      | IN_QUOTED_FIELD \<Rightarrow>
          if c = None then Inr r
          else if c = Some (CHR 0x22) then Inr (r\<lparr>rd_state := QUOTE_IN_QUOTED_FIELD\<rparr>)
          else add_char_then IN_QUOTED_FIELD r (the c)
      | QUOTE_IN_QUOTED_FIELD \<Rightarrow>
          if c = Some (CHR 0x22) then add_char_then IN_QUOTED_FIELD r (the c)
          else if c = Some (CHR '','') then Inr ((parse_save_field r)\<lparr>rd_state := START_FIELD\<rparr>)
          else if is_eol c then Inr (end_of_line r c)
          else add_char_then IN_FIELD r (the c)
      | EAT_CRNL \<Rightarrow>
          if c = Some (CHR 0x0A) \<or> c = Some (CHR 0x0D) then Inr r
          else if c = None then Inr (r\<lparr>rd_state := START_RECORD\<rparr>)
          else Inl (Exn csv_Error ''new-line character seen in unquoted field''))"

fun parse_chars :: "reader \<Rightarrow> string \<Rightarrow> exn + reader" where
  "parse_chars r [] = Inr r"
| "parse_chars r (c # cs) =
     (case parse_process_char r (Some c) of
        Inl e \<Rightarrow> Inl e
      | Inr r' \<Rightarrow> parse_chars r' cs)"

definition parse_line :: "reader \<Rightarrow> string \<Rightarrow> exn + reader" where
  "parse_line r l =
     (case parse_chars r l of
        Inl e \<Rightarrow> Inl e
      | Inr r' \<Rightarrow> parse_process_char r' None)"

text \<open>
  The rows the reader yields, in order, and the exception that ends the iteration when
  there is one. A record ends when the machine is back in \<open>START_RECORD\<close> after a line;
  a quoted field goes on over the following lines, and at the end of the input what was
  read of it is yielded as the last row.
\<close>

fun reader_rows :: "reader \<Rightarrow> string list \<Rightarrow> string list list \<times> exn option" where
  "reader_rows r [] =
     (if rd_field r \<noteq> [] \<or> rd_state r = IN_QUOTED_FIELD
      then ([rd_fields (parse_save_field r)], None)
      else ([], None))"
| "reader_rows r (l # ls) =
     (case parse_line r l of
        Inl e \<Rightarrow> ([], Some e)
      | Inr r' \<Rightarrow>
          if rd_state r' = START_RECORD
          then (case reader_rows parse_reset ls of (rows, e) \<Rightarrow> (rd_fields r' # rows, e))
          else reader_rows r' ls)"

definition csv_reader :: "string \<Rightarrow> string list list \<times> exn option" where
  "csv_reader text = reader_rows parse_reset (file_lines text)"

section \<open>\<^verbatim>\<open>convert_csv_to_json\<close>\<close>

text \<open>
  The operating system, as the script meets it: \<open>open_r p\<close> is what
  \<^verbatim>\<open>open(p, 'r')\<close> gives, the exception raised or the (decoded) text of the file,
  \<open>open_w p\<close> is the exception \<^verbatim>\<open>open(p, 'w')\<close> raises, if any, and \<open>dump_w p\<close> is
  the exception raised while \<^verbatim>\<open>json.dump\<close> writes to the opened file \<open>p\<close>, if any (the
  values dumped here are strings and floats, which \<^verbatim>\<open>json.dump\<close> always serialises).
\<close>

record env =
  open_r :: "string \<Rightarrow> exn + string"
  open_w :: "string \<Rightarrow> exn option"
  dump_w :: "string \<Rightarrow> exn option"

definition warning_msg :: "string \<Rightarrow> string \<Rightarrow> string \<Rightarrow> string" where
  "warning_msg rate currency date_str =
     ''Avertissement: Impossible de convertir le taux '' @ [CHR 0x27] @ rate @ [CHR 0x27]
     @ '' en nombre pour '' @ currency @ [CHR 0x20, CHR 0xE0] @ '' la date '' @ date_str"

definition success_msg :: "string \<Rightarrow> string" where
  "success_msg output_file =
     ''Conversion r'' @ [CHR 0xE9] @ ''ussie. R'' @ [CHR 0xE9] @ ''sultat '' @ [CHR 0xE9]
     @ ''crit dans '' @ output_file"

definition error_msg :: "exn \<Rightarrow> string" where
  "error_msg e = ''Erreur lors de la conversion: '' @ exn_str e"

definition usage_msg :: string where
  "usage_msg = ''Usage: python convert_exchange_rates.py input.csv output.json''"

text \<open>
  Line 27, \<^verbatim>\<open>date_str, currency, rate = row\<close>: the row must hold exactly three fields,
  or \<^verbatim>\<open>ValueError\<close> is raised (with the text CPython gives it up to version 3.13).
\<close>

definition unpack3 :: "string list \<Rightarrow> exn + (string \<times> string \<times> string)" where
  "unpack3 row =
     (case row of
        [a, b, c] \<Rightarrow> Inr (a, b, c)
      | _ \<Rightarrow>
          if length row < 3 then
            Inl (Exn ValueError
                  (''not enough values to unpack (expected 3, got ''
                   @ [digit_char (length row)] @ '')''))
          else Inl (Exn ValueError ''too many values to unpack (expected 3)''))"

text \<open>Lines 30 to 35: the date, reformatted when it parses and unchanged otherwise.\<close>

definition iso_date_of :: "string \<Rightarrow> string" where
  "iso_date_of date_str =
     (case strptime date_str of
        Some date_obj \<Rightarrow> strftime date_obj
      | None \<Rightarrow> date_str)"

text \<open>Lines 37 to 42: the rate as a float, or the string itself after a warning.\<close>

definition rate_float_of :: "string \<Rightarrow> string \<Rightarrow> string \<Rightarrow> pyval \<times> event list" where
  "rate_float_of date_str currency rate =
     (case py_float rate of
        Some x \<Rightarrow> (Float x, [])
      | None \<Rightarrow> (Str rate, [Print (warning_msg rate currency date_str)]))"

text \<open>Lines 45 to 49: the dictionary appended for a row.\<close>

definition entry :: "string \<Rightarrow> string \<Rightarrow> pyval \<Rightarrow> pyval" where
  "entry iso_date currency rate_float =
     Dict [(''date'', Str iso_date), (''currency'', Str currency), (''rate'', rate_float)]"

text \<open>
  Lines 26 to 49, the body of the loop: the list \<open>exchange_rates\<close> after the row, or
  the exception raised, with the events of the row.
\<close>

definition loop_body :: "string list \<Rightarrow> pyval list \<Rightarrow> (exn + pyval list) \<times> event list" where
  "loop_body row exchange_rates =
     (if length row \<ge> 3 then
        (case unpack3 row of
           Inl e \<Rightarrow> (Inl e, [])
         | Inr (date_str, currency, rate) \<Rightarrow>
             (case rate_float_of date_str currency rate of
                (rate_float, evs) \<Rightarrow>
                  (Inr (exchange_rates @ [entry (iso_date_of date_str) currency rate_float]),
                   evs)))
      else (Inr exchange_rates, []))"

text \<open>
  The \<^verbatim>\<open>for\<close> loop over the rows left in the reader; \<open>err\<close> is the exception the
  reader raises after its last row, if any.
\<close>

fun for_rows ::
  "string list list \<Rightarrow> exn option \<Rightarrow> pyval list \<Rightarrow> (exn + pyval list) \<times> event list"
where
  "for_rows [] err exchange_rates =
     (case err of None \<Rightarrow> (Inr exchange_rates, []) | Some e \<Rightarrow> (Inl e, []))"
| "for_rows (row # rows) err exchange_rates =
     (case loop_body row exchange_rates of
        (Inl e, evs) \<Rightarrow> (Inl e, evs)
      | (Inr exchange_rates', evs) \<Rightarrow>
          (case for_rows rows err exchange_rates' of
             (res, evs') \<Rightarrow> (res, evs @ evs')))"

text \<open>
  Lines 19 to 49, inside the \<^verbatim>\<open>with\<close> block: \<^verbatim>\<open>next(csv_reader)\<close> takes the header
  (\<^verbatim>\<open>StopIteration\<close> when the reader has no row), then the loop runs.
\<close>

definition with_csv_file :: "string \<Rightarrow> (exn + pyval list) \<times> event list" where
  "with_csv_file text =
     (case csv_reader text of
        ([], None) \<Rightarrow> (Inl (Exn StopIteration []), [])
      | ([], Some e) \<Rightarrow> (Inl e, [])
      | (header # rows, err) \<Rightarrow> for_rows rows err [])"

text \<open>Lines 17 to 49: opening the input, the block, and the file closed on every way out.\<close>

definition read_phase :: "env \<Rightarrow> string \<Rightarrow> (exn + pyval list) \<times> event list" where
  "read_phase e input_file =
     (case open_r e input_file of
        Inl ex \<Rightarrow> (Inl ex, [])
      | Inr text \<Rightarrow>
          (case with_csv_file text of
             (res, evs) \<Rightarrow> (res, [OpenRead input_file] @ evs @ [CloseRead input_file])))"

text \<open>
  Lines 52 to 60: the document, the output file, the success message. When writing fails
  after the file has been opened, the file has been emptied and holds part of the text at
  most: it is opened and closed, and no document is dumped.
\<close>

definition json_data :: "pyval list \<Rightarrow> pyval" where
  "json_data exchange_rates = Dict [(''exchange_rates'', List exchange_rates)]"

definition write_phase :: "env \<Rightarrow> string \<Rightarrow> pyval list \<Rightarrow> exn option \<times> event list" where
  "write_phase e output_file exchange_rates =
     (case open_w e output_file of
        Some ex \<Rightarrow> (Some ex, [])
      | None \<Rightarrow>
          (case dump_w e output_file of
             Some ex \<Rightarrow> (Some ex, [OpenWrite output_file, CloseWrite output_file])
           | None \<Rightarrow>
               (None,
                [OpenWrite output_file,
                 Dump output_file (json_data exchange_rates),
                 CloseWrite output_file,
                 Print (success_msg output_file)])))"

text \<open>
  The function: the \<^verbatim>\<open>try\<close> block, and the handler of line 62 that prints the
  exception and returns \<^verbatim>\<open>False\<close>. The result is the value returned and the events
  of the call.
\<close>

definition convert_csv_to_json :: "env \<Rightarrow> string \<Rightarrow> string \<Rightarrow> bool \<times> event list" where
  "convert_csv_to_json e input_file output_file =
     (case read_phase e input_file of
        (Inl ex, evs) \<Rightarrow> (False, evs @ [Print (error_msg ex)])
      | (Inr exchange_rates, evs) \<Rightarrow>
          (case write_phase e output_file exchange_rates of
             (Some ex, evs') \<Rightarrow> (False, evs @ evs' @ [Print (error_msg ex)])
           | (None, evs') \<Rightarrow> (True, evs @ evs')))"

section \<open>\<^verbatim>\<open>main\<close>\<close>

text \<open>\<open>argv\<close> is \<^verbatim>\<open>sys.argv\<close>: the script's name, then the arguments.\<close>

definition main :: "env \<Rightarrow> string list \<Rightarrow> event list" where
  "main e argv =
     (if length argv \<noteq> 3 then [Print usage_msg]
      else snd (convert_csv_to_json e (argv ! 1) (argv ! 2)))"

text \<open>
  Running the script calls \<^verbatim>\<open>main()\<close> and ends. Nothing in it calls \<^verbatim>\<open>sys.exit\<close>,
  so the interpreter leaves with status 0 whenever \<^verbatim>\<open>main\<close> returns.
\<close>

definition run_script :: "env \<Rightarrow> string list \<Rightarrow> event list \<times> nat" where
  "run_script e argv = (main e argv, 0)"

section \<open>Notions the properties are stated with\<close>

text \<open>
  The entry a row with at least three fields stands for: the reformatted date, the
  currency and the coerced rate of its first three fields.
\<close>

fun row_entry :: "string list \<Rightarrow> pyval" where
  "row_entry (date_str # currency # rate # others) =
     entry (iso_date_of date_str) currency (fst (rate_float_of date_str currency rate))"
| "row_entry row = Dict []"

text \<open>The events of a row: the warning of a row of exactly three fields, if it has one.\<close>

fun row_events :: "string list \<Rightarrow> event list" where
  "row_events [date_str, currency, rate] = snd (rate_float_of date_str currency rate)"
| "row_events row = []"

definition dumps :: "event list \<Rightarrow> (string \<times> pyval) list" where
  "dumps evs = concat (map (\<lambda>ev. case ev of Dump p v \<Rightarrow> [(p, v)] | _ \<Rightarrow> []) evs)"

text \<open>
  A file system that holds one file, at \<open>path\<close> with the text \<open>body\<close>, and lets every
  path be opened for writing and written.
\<close>

definition single_file :: "string \<Rightarrow> string \<Rightarrow> env" where
  "single_file path body =
     \<lparr>open_r = (\<lambda>p. if p = path then Inr body
                    else Inl (Exn FileNotFoundError ''[Errno 2] No such file or directory'')),
      open_w = (\<lambda>p. None),
      dump_w = (\<lambda>p. None)\<rparr>"

section \<open>The loop over the rows\<close>

lemma loop_body_three:
  "loop_body [d, c, r] acc =
     (Inr (acc @ [entry (iso_date_of d) c (fst (rate_float_of d c r))]),
      snd (rate_float_of d c r))"
  by (simp add: loop_body_def unpack3_def split: prod.splits)

lemma loop_body_short: "length row < 3 \<Longrightarrow> loop_body row acc = (Inr acc, [])"
  by (simp add: loop_body_def)

lemma unpack3_long:
  "3 < length row \<Longrightarrow>
   unpack3 row = Inl (Exn ValueError ''too many values to unpack (expected 3)'')"
  by (auto simp: unpack3_def split: list.splits)

lemma loop_body_long:
  "3 < length row \<Longrightarrow>
   loop_body row acc = (Inl (Exn ValueError ''too many values to unpack (expected 3)''), [])"
  by (simp add: loop_body_def unpack3_long)

lemma length3: "length row = 3 \<Longrightarrow> \<exists>d c r. row = [d, c, r]"
  by (cases row; simp; cases "tl row"; simp; cases "tl (tl row)"; auto)

lemma loop_body_eq3:
  "length row = 3 \<Longrightarrow> loop_body row acc = (Inr (acc @ [row_entry row]), row_events row)"
  using length3[of row] by (auto simp: loop_body_three)

lemma row_events_not3: "length row \<noteq> 3 \<Longrightarrow> row_events row = []"
  by (induction row rule: row_events.induct) simp_all

text \<open>
  When no row has more than three fields the loop runs to the end of the reader: every
  row of three fields adds its entry, in order, and the shorter rows add nothing.
\<close>

lemma for_rows_ok:
  "list_all (\<lambda>row. length row \<le> 3) rows \<Longrightarrow>
   for_rows rows err acc =
     ((case err of
         None \<Rightarrow> Inr (acc @ map row_entry (filter (\<lambda>row. 3 \<le> length row) rows))
       | Some e \<Rightarrow> Inl e),
      concat (map row_events rows))"
proof (induction rows arbitrary: acc)
  case Nil
  then show ?case by (simp split: option.splits)
next
  case (Cons row rows)
  show ?case
  proof (cases "length row = 3")
    case True
    then show ?thesis
      using Cons by (auto simp: loop_body_eq3 split: option.splits)
  next
    case False
    then have "length row < 3" using Cons.prems by simp
    then show ?thesis
      using Cons False by (auto simp: loop_body_short row_events_not3 split: option.splits)
  qed
qed

text \<open>The loop ends without an exception only in that case.\<close>

lemma for_rows_Inr:
  "for_rows rows err acc = (Inr res, evs) \<Longrightarrow>
     list_all (\<lambda>row. length row \<le> 3) rows \<and> err = None"
proof (induction rows arbitrary: acc evs)
  case Nil
  then show ?case by (simp split: option.splits)
next
  case (Cons row rows)
  have le: "length row \<le> 3"
  proof (rule ccontr)
    assume "\<not> length row \<le> 3"
    then have "3 < length row" by simp
    then show False using Cons.prems by (simp add: loop_body_long)
  qed
  obtain acc' evs1 where lb: "loop_body row acc = (Inr acc', evs1)"
    using Cons.prems by (auto split: prod.splits sum.splits)
  obtain evs2 where "for_rows rows err acc' = (Inr res, evs2)"
    using Cons.prems lb by (auto split: prod.splits)
  from Cons.IH[OF this] le show ?case by simp
qed

section \<open>Events of the reading phase\<close>

lemma loop_body_events: "list_all is_print (snd (loop_body row acc))"
  by (auto simp: loop_body_def rate_float_of_def split: sum.splits prod.splits option.splits)

lemma for_rows_events: "list_all is_print (snd (for_rows rows err acc))"
proof (induction rows arbitrary: acc)
  case Nil
  then show ?case by (simp split: option.splits)
next
  case (Cons row rows)
  obtain r1 e1 where lb: "loop_body row acc = (r1, e1)"
    by (cases "loop_body row acc")
  then have p1: "list_all is_print e1"
    using loop_body_events[of row acc] by simp
  show ?case
  proof (cases r1)
    case (Inl ex)
    then show ?thesis using lb p1 by simp
  next
    case (Inr acc')
    obtain r2 e2 where fr: "for_rows rows err acc' = (r2, e2)"
      by (cases "for_rows rows err acc'")
    then have "list_all is_print e2"
      using Cons.IH[of acc'] by simp
    then show ?thesis using lb Inr fr p1 by simp
  qed
qed

lemma with_csv_file_events: "list_all is_print (snd (with_csv_file text))"
  by (auto simp: with_csv_file_def for_rows_events split: prod.splits list.splits option.splits)

lemma print_not_write: "is_print ev \<Longrightarrow> \<not> is_write ev"
  by (cases ev) simp_all

lemma prints_no_write: "list_all is_print evs \<Longrightarrow> filter is_write evs = []"
  by (induction evs) (auto simp: print_not_write)

lemma read_phase_shape:
  "open_r e input_file = Inr text \<Longrightarrow>
   read_phase e input_file =
     (fst (with_csv_file text),
      OpenRead input_file # snd (with_csv_file text) @ [CloseRead input_file])"
  by (simp add: read_phase_def split: prod.splits)

lemma read_phase_fail_open:
  "open_r e input_file = Inl ex \<Longrightarrow> read_phase e input_file = (Inl ex, [])"
  by (simp add: read_phase_def)

lemma read_phase_no_write: "filter is_write (snd (read_phase e input_file)) = []"
proof (cases "open_r e input_file")
  case (Inl ex)
  then show ?thesis by (simp add: read_phase_fail_open)
next
  case (Inr body)
  have "filter is_write (snd (with_csv_file body)) = []"
    using with_csv_file_events by (rule prints_no_write)
  then show ?thesis by (simp add: read_phase_shape[OF Inr])
qed

lemma read_phase_Inr_opened:
  "fst (read_phase e input_file) = Inr rates \<Longrightarrow> \<exists>text. open_r e input_file = Inr text"
  by (cases "open_r e input_file") (simp_all add: read_phase_fail_open)

text \<open>The four ways a call can go.\<close>

lemma convert_read_fails:
  "read_phase e input_file = (Inl ex, evs) \<Longrightarrow>
   convert_csv_to_json e input_file output_file = (False, evs @ [Print (error_msg ex)])"
  by (simp add: convert_csv_to_json_def)

lemma convert_open_w_fails:
  "read_phase e input_file = (Inr rates, evs) \<Longrightarrow> open_w e output_file = Some ex \<Longrightarrow>
   convert_csv_to_json e input_file output_file = (False, evs @ [Print (error_msg ex)])"
  by (simp add: convert_csv_to_json_def write_phase_def)

lemma convert_dump_fails:
  "read_phase e input_file = (Inr rates, evs) \<Longrightarrow> open_w e output_file = None \<Longrightarrow>
   dump_w e output_file = Some ex \<Longrightarrow>
   convert_csv_to_json e input_file output_file =
     (False, evs @ [OpenWrite output_file, CloseWrite output_file, Print (error_msg ex)])"
  by (simp add: convert_csv_to_json_def write_phase_def)

lemma convert_succeeds:
  "read_phase e input_file = (Inr rates, evs) \<Longrightarrow> open_w e output_file = None \<Longrightarrow>
   dump_w e output_file = None \<Longrightarrow>
   convert_csv_to_json e input_file output_file =
     (True, evs @ [OpenWrite output_file, Dump output_file (json_data rates),
                   CloseWrite output_file, Print (success_msg output_file)])"
  by (simp add: convert_csv_to_json_def write_phase_def)

section \<open>Whole runs\<close>

text \<open>
  A run over rows of at most three fields each, with a writable output, succeeds; a row
  of more than three fields stops it at the unpacking of line 27.
\<close>

lemma with_csv_file_ok:
  "csv_reader body = (header # rows, None) \<Longrightarrow> list_all (\<lambda>row. length row \<le> 3) rows \<Longrightarrow>
   with_csv_file body =
     (Inr (map row_entry (filter (\<lambda>row. 3 \<le> length row) rows)), concat (map row_events rows))"
  by (simp add: with_csv_file_def for_rows_ok)

lemma convert_ok:
  assumes "open_r e input_file = Inr body"
    and "csv_reader body = (header # rows, None)"
    and "list_all (\<lambda>row. length row \<le> 3) rows"
    and "open_w e output_file = None"
    and "dump_w e output_file = None"
  shows "convert_csv_to_json e input_file output_file =
     (True,
      OpenRead input_file # concat (map row_events rows) @
      [CloseRead input_file, OpenWrite output_file,
       Dump output_file
         (Dict [(''exchange_rates'',
                 List (map row_entry (filter (\<lambda>row. 3 \<le> length row) rows)))]),
       CloseWrite output_file, Print (success_msg output_file)])"
proof -
  have "read_phase e input_file =
      (Inr (map row_entry (filter (\<lambda>row. 3 \<le> length row) rows)),
       OpenRead input_file # concat (map row_events rows) @ [CloseRead input_file])"
    using read_phase_shape[OF assms(1)] with_csv_file_ok[OF assms(2,3)] by simp
  from convert_succeeds[OF this assms(4,5)] show ?thesis
    by (simp add: json_data_def)
qed

lemma for_rows_long:
  "list_all (\<lambda>row. length row \<le> 3) pre \<Longrightarrow> 3 < length row \<Longrightarrow>
   for_rows (pre @ row # post) err acc =
     (Inl (Exn ValueError ''too many values to unpack (expected 3)''),
      concat (map row_events pre))"
proof (induction pre arbitrary: acc)
  case Nil
  then show ?case by (simp add: loop_body_long)
next
  case (Cons r pre)
  show ?case
  proof (cases "length r = 3")
    case True
    then show ?thesis using Cons by (simp add: loop_body_eq3)
  next
    case False
    then have "length r < 3" using Cons.prems by simp
    then show ?thesis using Cons False by (simp add: loop_body_short row_events_not3)
  qed
qed

lemma convert_long_row:
  assumes "open_r e input_file = Inr body"
    and "csv_reader body = (header # pre @ row # post, err)"
    and "list_all (\<lambda>row. length row \<le> 3) pre"
    and "3 < length row"
  shows "convert_csv_to_json e input_file output_file =
     (False,
      OpenRead input_file # concat (map row_events pre) @
      [CloseRead input_file,
       Print ''Erreur lors de la conversion: too many values to unpack (expected 3)''])"
proof -
  have "with_csv_file body =
      (Inl (Exn ValueError ''too many values to unpack (expected 3)''),
       concat (map row_events pre))"
    using assms(2) for_rows_long[OF assms(3,4)] by (simp add: with_csv_file_def)
  then have "read_phase e input_file =
      (Inl (Exn ValueError ''too many values to unpack (expected 3)''),
       OpenRead input_file # concat (map row_events pre) @ [CloseRead input_file])"
    using read_phase_shape[OF assms(1)] by simp
  from convert_read_fails[OF this] show ?thesis
    by (simp add: error_msg_def)
qed

lemma dumps_append: "dumps (xs @ ys) = dumps xs @ dumps ys"
  by (simp add: dumps_def)

lemma dumps_prints: "list_all is_print evs \<Longrightarrow> dumps evs = []"
proof (induction evs)
  case Nil
  then show ?case by (simp add: dumps_def)
next
  case (Cons ev evs)
  then show ?case by (cases ev) (simp_all add: dumps_def)
qed

lemma read_phase_no_dump: "dumps (snd (read_phase e input_file)) = []"
proof (cases "open_r e input_file")
  case (Inl ex)
  then show ?thesis by (simp add: read_phase_fail_open dumps_def)
next
  case (Inr body)
  have "dumps (snd (with_csv_file body)) = []"
    using with_csv_file_events by (rule dumps_prints)
  then show ?thesis
    using dumps_append[of "[OpenRead input_file]" "snd (with_csv_file body) @ [CloseRead input_file]"]
      dumps_append[of "snd (with_csv_file body)" "[CloseRead input_file]"]
    by (simp add: read_phase_shape[OF Inr] dumps_def)
qed

lemma with_csv_file_Inr:
  assumes "fst (with_csv_file body) = Inr rates"
  shows "\<exists>header rows. csv_reader body = (header # rows, None) \<and>
           rates = map row_entry (filter (\<lambda>row. 3 \<le> length row) rows)"
proof -
  obtain rs err where cr: "csv_reader body = (rs, err)"
    by (cases "csv_reader body")
  show ?thesis
  proof (cases rs)
    case Nil
    then show ?thesis using assms cr by (simp add: with_csv_file_def split: option.splits)
  next
    case (Cons header rows)
    then have w: "with_csv_file body = for_rows rows err []"
      using cr by (simp add: with_csv_file_def)
    obtain evs where fr: "for_rows rows err [] = (Inr rates, evs)"
      using assms w by (cases "for_rows rows err []") simp
    from for_rows_Inr[OF fr] have ok: "list_all (\<lambda>row. length row \<le> 3) rows" and en: "err = None"
      by simp_all
    from for_rows_ok[OF ok, of err "[]"] fr en
    have "rates = map row_entry (filter (\<lambda>row. 3 \<le> length row) rows)" by simp
    then show ?thesis using cr Cons en by simp
  qed
qed

section \<open>Dates written month/day/year\<close>





















section \<open>Files of one line\<close>

lemmas machine_defs =
  parse_process_char_def start_field_def add_char_then_def parse_add_char_def
  parse_save_field_def end_of_line_def is_eol_def

lemma process_char_plain:
  assumes "c \<noteq> CHR 0x0A" "c \<noteq> CHR 0x0D" "rd_state r \<noteq> EAT_CRNL"
    and "length (rd_field r) < field_limit"
  shows "\<exists>r'. parse_process_char r (Some c) = Inr r' \<and>
           rd_state r' \<noteq> START_RECORD \<and> rd_state r' \<noteq> EAT_CRNL \<and>
           length (rd_field r') \<le> Suc (length (rd_field r))"
  using assms by (cases "rd_state r") (auto simp: machine_defs)

lemma parse_chars_plain:
  "list_all (\<lambda>c. c \<noteq> CHR 0x0A \<and> c \<noteq> CHR 0x0D) s \<Longrightarrow> rd_state r \<noteq> EAT_CRNL \<Longrightarrow>
   length (rd_field r) + length s \<le> field_limit \<Longrightarrow>
   \<exists>r'. parse_chars r s = Inr r' \<and> rd_state r' \<noteq> EAT_CRNL \<and>
        (s = [] \<or> rd_state r' \<noteq> START_RECORD) \<and>
        length (rd_field r') \<le> length (rd_field r) + length s"
proof (induction s arbitrary: r)
  case Nil
  then show ?case by simp
next
  case (Cons c s)
  have lt: "length (rd_field r) < field_limit" using Cons.prems(3) by simp
  from process_char_plain[of c r] Cons.prems lt obtain r1 where
    r1: "parse_process_char r (Some c) = Inr r1" "rd_state r1 \<noteq> START_RECORD"
      "rd_state r1 \<noteq> EAT_CRNL" "length (rd_field r1) \<le> Suc (length (rd_field r))"
    by auto
  have "length (rd_field r1) + length s \<le> field_limit"
    using r1(4) Cons.prems(3) by simp
  from Cons.IH[OF _ r1(3) this] Cons.prems(1) obtain r' where
    r': "parse_chars r1 s = Inr r'" "rd_state r' \<noteq> EAT_CRNL"
      "s = [] \<or> rd_state r' \<noteq> START_RECORD"
      "length (rd_field r') \<le> length (rd_field r1) + length s"
    by auto
  have "rd_state r' \<noteq> START_RECORD"
    using r'(1,3) r1(2) by auto
  then show ?case using r1 r' by auto
qed

lemma parse_chars_append:
  "parse_chars r (s @ t) =
     (case parse_chars r s of Inl e \<Rightarrow> Inl e | Inr r' \<Rightarrow> parse_chars r' t)"
  by (induction s arbitrary: r) (auto split: sum.splits)

text \<open>After a line without a newline character, the end of the line closes the record
  unless a quoted field is open.\<close>

lemma eol_after_plain:
  assumes "rd_state r \<noteq> START_RECORD" "rd_state r \<noteq> EAT_CRNL"
  shows "\<exists>r'. parse_process_char r None = Inr r' \<and>
           (if rd_state r = IN_QUOTED_FIELD then r' = r
            else rd_state r' = START_RECORD \<and> rd_fields r' = rd_fields r @ [rd_field r])"
  using assms by (cases "rd_state r") (auto simp: machine_defs)

lemma lf_eol_after_plain:
  assumes "rd_state r \<noteq> START_RECORD" "rd_state r \<noteq> EAT_CRNL"
    and "length (rd_field r) < field_limit"
  shows "\<exists>r1 r'. parse_process_char r (Some (CHR 0x0A)) = Inr r1 \<and>
           parse_process_char r1 None = Inr r' \<and>
           (rd_state r' = START_RECORD \<or> rd_state r' = IN_QUOTED_FIELD)"
  using assms by (cases "rd_state r") (auto simp: machine_defs)

lemma reader_rows_one_line:
  assumes "parse_line parse_reset l = Inr r'"
    and "rd_state r' = START_RECORD \<or> rd_state r' = IN_QUOTED_FIELD"
  shows "\<exists>header. reader_rows parse_reset [l] = ([header], None)"
  using assms by (auto simp: parse_reset_def)


lemma universal_newlines_id: "CHR 0x0D \<notin> set s \<Longrightarrow> universal_newlines s = s"
  by (induction s rule: universal_newlines.induct) auto

lemma split_lines_plain:
  "s \<noteq> [] \<Longrightarrow> CHR 0x0A \<notin> set s \<Longrightarrow> split_lines s = [s]"
proof (induction s)
  case Nil
  then show ?case by simp
next
  case (Cons c s)
  then show ?case by (cases s) auto
qed

lemma split_lines_plain_lf:
  "CHR 0x0A \<notin> set s \<Longrightarrow> split_lines (s @ [CHR 0x0A]) = [s @ [CHR 0x0A]]"
  by (induction s) auto

lemma universal_newlines_cr:
  "CHR 0x0D \<notin> set s \<Longrightarrow> universal_newlines (s @ [CHR 0x0D]) = s @ [CHR 0x0A]"
  by (induction s rule: universal_newlines.induct) auto

lemma universal_newlines_crlf:
  "CHR 0x0D \<notin> set s \<Longrightarrow> universal_newlines (s @ [CHR 0x0D, CHR 0x0A]) = s @ [CHR 0x0A]"
  by (induction s rule: universal_newlines.induct) auto

text \<open>
  A file that holds one line only, ended by nothing, a line feed, a carriage return or
  both, is read as that one line.
\<close>

lemma file_lines_one:
  assumes "h \<noteq> []" "list_all (\<lambda>c. c \<noteq> CHR 0x0A \<and> c \<noteq> CHR 0x0D) h"
    and "body = h \<or> body = h @ [CHR 0x0A] \<or> body = h @ [CHR 0x0D, CHR 0x0A] \<or>
         body = h @ [CHR 0x0D]"
  shows "file_lines body = [h] \<or> file_lines body = [h @ [CHR 0x0A]]"
proof -
  have n: "CHR 0x0A \<notin> set h" "CHR 0x0D \<notin> set h"
    using assms(2) by (auto simp: list_all_iff)
  have 1: "file_lines h = [h]"
    using n assms(1) by (simp add: file_lines_def universal_newlines_id split_lines_plain)
  have "CHR 0x0D \<notin> set (h @ [CHR 0x0A])" using n by simp
  then have 2: "file_lines (h @ [CHR 0x0A]) = [h @ [CHR 0x0A]]"
    using n by (simp add: file_lines_def universal_newlines_id split_lines_plain_lf)
  have 3: "file_lines (h @ [CHR 0x0D, CHR 0x0A]) = [h @ [CHR 0x0A]]"
    using n by (simp add: file_lines_def universal_newlines_crlf split_lines_plain_lf)
  have 4: "file_lines (h @ [CHR 0x0D]) = [h @ [CHR 0x0A]]"
    using n by (simp add: file_lines_def universal_newlines_cr split_lines_plain_lf)
  show ?thesis using assms(3) 1 2 3 4 by auto
qed

text \<open>Such a file gives the reader exactly one row.\<close>

lemma header_line_one_row:
  assumes "h \<noteq> []" "list_all (\<lambda>c. c \<noteq> CHR 0x0A \<and> c \<noteq> CHR 0x0D) h"
    and "length h < field_limit"
    and "body = h \<or> body = h @ [CHR 0x0A] \<or> body = h @ [CHR 0x0D, CHR 0x0A] \<or>
         body = h @ [CHR 0x0D]"
  shows "\<exists>header. csv_reader body = ([header], None)"
proof -
  from parse_chars_plain[OF assms(2), of parse_reset] assms(1,3) obtain r where
    r: "parse_chars parse_reset h = Inr r" "rd_state r \<noteq> EAT_CRNL"
      "rd_state r \<noteq> START_RECORD" "length (rd_field r) \<le> length h"
    by (auto simp: parse_reset_def)
  from eol_after_plain[OF r(3,2)] obtain r' where
    r': "parse_process_char r None = Inr r'"
      "rd_state r' = START_RECORD \<or> rd_state r' = IN_QUOTED_FIELD"
    by (auto split: if_splits)
  have "parse_line parse_reset h = Inr r'"
    using r(1) r'(1) by (simp add: parse_line_def)
  from reader_rows_one_line[OF this r'(2)]
  have a: "\<exists>header. reader_rows parse_reset [h] = ([header], None)" .
  have "length (rd_field r) < field_limit" using r(4) assms(3) by simp
  from lf_eol_after_plain[OF r(3,2) this] obtain r1 r2 where
    r2: "parse_process_char r (Some (CHR 0x0A)) = Inr r1" "parse_process_char r1 None = Inr r2"
      "rd_state r2 = START_RECORD \<or> rd_state r2 = IN_QUOTED_FIELD"
    by auto
  have "parse_line parse_reset (h @ [CHR 0x0A]) = Inr r2"
    using r(1) r2(1,2) by (simp add: parse_line_def parse_chars_append)
  from reader_rows_one_line[OF this r2(3)]
  have b: "\<exists>header. reader_rows parse_reset [h @ [CHR 0x0A]] = ([header], None)" .
  from file_lines_one[OF assms(1,2,4)] a b show ?thesis
    by (auto simp: csv_reader_def)
qed

section \<open>Evaluating the library functions on given text\<close>

lemmas reader_eval =
  csv_reader_def file_lines_def parse_reset_def parse_line_def parse_process_char_def
  start_field_def add_char_then_def parse_add_char_def parse_save_field_def end_of_line_def
  is_eol_def field_limit_def

lemma csv_reader_empty: "csv_reader [] = ([], None)"
  by (simp add: reader_eval)

lemma csv_reader_h: "csv_reader ''h\<newline>'' = ([[''h'']], None)"
  by (simp add: reader_eval)

lemmas float_eval =
  py_float_def float_from_string_inner_def strip_def is_space_def strtod_def take_sign_def is_digit_def dec_def
  digit_val_def parse_inf_or_nan_def to_lower_def

lemmas date_eval =
  iso_date_of_def strptime_def re_m_def re_d_def re_Y_def is_digit_def is_nonzero_digit_def
  dec_def digit_val_def valid_date_def days_in_month_def is_leap_def strftime_def pad2_def
  pad4_def digit_char_def

lemma ex_rows:
  "csv_reader ''Date,Currency,Rate\<newline>01/15/2023,USD,1.0732\<newline>01/16/2023,EUR,bad\<newline>01/17/2023,GBP\<newline>'' =
     ([''Date'', ''Currency'', ''Rate''] #
      [[''01/15/2023'', ''USD'', ''1.0732''], [''01/16/2023'', ''EUR'', ''bad''],
       [''01/17/2023'', ''GBP'']], None)"
  by (simp add: reader_eval)


lemma ex_floats:
  "py_float ''1.0732'' = Some (Finite False 10732 (- 4))" "py_float ''bad'' = None"
  by (simp_all add: float_eval)

lemma ex_dates:
  "iso_date_of ''01/15/2023'' = ''2023-01-15''" "iso_date_of ''01/16/2023'' = ''2023-01-16''"
  by (simp_all add: date_eval)


lemma ex_four_fields:
  "csv_reader ''Date,Currency,Rate\<newline>01/15/2023,USD,1.0732,extra\<newline>'' =
     ([''Date'', ''Currency'', ''Rate''] #
      [] @ [''01/15/2023'', ''USD'', ''1.0732'', ''extra''] # [], None)"
  by (simp add: reader_eval)

lemma single_file_simps:
  "open_r (single_file path body) path = Inr body"
  "open_w (single_file path body) output_file = None"
  "dump_w (single_file path body) output_file = None"
  by (simp_all add: single_file_def)

section \<open>Each row\<close>









section \<open>The document written\<close>

text \<open>
  C4. A call that returns \<^verbatim>\<open>True\<close> has dumped exactly one value, to the output path: a
  dictionary with the single key \<^verbatim>\<open>exchange_rates\<close>, whose value is the list of the
  entries of the rows of at least three fields, in the order of the rows in the input,
  the first row (the header) left out. A call that returns \<^verbatim>\<open>False\<close> has dumped
  nothing.
\<close>

theorem document_shape:
  "convert_csv_to_json e input_file output_file = (ok, evs) \<Longrightarrow>
     (if ok then
        \<exists>body header rows.
          open_r e input_file = Inr body \<and> csv_reader body = (header # rows, None) \<and>
          dumps evs =
            [(output_file,
              Dict [(''exchange_rates'',
                     List (map row_entry (filter (\<lambda>row. 3 \<le> length row) rows)))])]
      else dumps evs = [])"
proof -
  assume c: "convert_csv_to_json e input_file output_file = (ok, evs)"
  obtain res evr where rp: "read_phase e input_file = (res, evr)"
    by (cases "read_phase e input_file")
  have nd: "dumps evr = []"
    using read_phase_no_dump[of e input_file] rp by simp
  show ?thesis
  proof (cases res)
    case (Inl ex)
    then have "\<not> ok \<and> evs = evr @ [Print (error_msg ex)]"
      using c rp convert_read_fails[of e input_file ex evr output_file] by simp
    then show ?thesis using nd by (simp add: dumps_append) (simp add: dumps_def)
  next
    case (Inr rates)
    obtain body where op: "open_r e input_file = Inr body"
      using read_phase_Inr_opened[of e input_file rates] rp Inr by auto
    have "fst (with_csv_file body) = Inr rates"
      using read_phase_shape[OF op] rp Inr by simp
    from with_csv_file_Inr[OF this] obtain header rows where
      cr: "csv_reader body = (header # rows, None)" and
      rt: "rates = map row_entry (filter (\<lambda>row. 3 \<le> length row) rows)"
      by blast
    show ?thesis
    proof (cases "open_w e output_file")
      case (Some ex)
      have "\<not> ok \<and> evs = evr @ [Print (error_msg ex)]"
        using convert_open_w_fails[of e input_file rates evr output_file ex] rp Inr Some c
        by simp
      then show ?thesis using nd by (simp add: dumps_append) (simp add: dumps_def)
    next
      case None
      show ?thesis
      proof (cases "dump_w e output_file")
        case (Some ex)
        have "\<not> ok \<and>
            evs = evr @ [OpenWrite output_file, CloseWrite output_file, Print (error_msg ex)]"
          using convert_dump_fails[of e input_file rates evr output_file ex] rp Inr None Some c
          by simp
        then show ?thesis using nd by (simp add: dumps_append) (simp add: dumps_def)
      next
        case dn: None
        have "ok \<and> evs = evr @ [OpenWrite output_file, Dump output_file (json_data rates),
                     CloseWrite output_file, Print (success_msg output_file)]"
          using convert_succeeds[of e input_file rates evr output_file] rp Inr None dn c
          by simp
        then have "ok" and "dumps evs = [(output_file, json_data rates)]"
          using nd by (simp_all add: dumps_append) (simp add: dumps_def)
        then show ?thesis using op cr rt by (simp add: json_data_def)
      qed
    qed
  qed
qed

theorem document_shape_witness:
  "fst (convert_csv_to_json
      (single_file ''in.csv''
         ''Date,Currency,Rate\<newline>01/15/2023,USD,1.0732\<newline>01/16/2023,EUR,bad\<newline>01/17/2023,GBP\<newline>'')
      ''in.csv'' ''out.json'') \<and>
   dumps (snd (convert_csv_to_json
      (single_file ''in.csv''
         ''Date,Currency,Rate\<newline>01/15/2023,USD,1.0732\<newline>01/16/2023,EUR,bad\<newline>01/17/2023,GBP\<newline>'')
      ''in.csv'' ''out.json'')) =
     [(''out.json'',
       Dict [(''exchange_rates'',
            List [Dict [(''date'', Str ''2023-01-15''), (''currency'', Str ''USD''),
                        (''rate'', Float (Finite False 10732 (- 4)))],
                  Dict [(''date'', Str ''2023-01-16''), (''currency'', Str ''EUR''),
                        (''rate'', Str ''bad'')]])])]"
proof -
  let ?e = "single_file ''in.csv''
         ''Date,Currency,Rate\<newline>01/15/2023,USD,1.0732\<newline>01/16/2023,EUR,bad\<newline>01/17/2023,GBP\<newline>''"
  have ok: "fst (convert_csv_to_json ?e ''in.csv'' ''out.json'')"
    using convert_ok[of ?e "''in.csv''", OF _ ex_rows, of "''out.json''"]
    by (simp add: single_file_simps)
  then have "convert_csv_to_json ?e ''in.csv'' ''out.json'' =
      (True, snd (convert_csv_to_json ?e ''in.csv'' ''out.json''))"
    by (cases "convert_csv_to_json ?e ''in.csv'' ''out.json''") simp
  from document_shape[OF this] ok show ?thesis
    by (auto simp: single_file_simps ex_rows rate_float_of_def ex_floats ex_dates entry_def)
qed



text \<open>
  C10. For an input file that holds one line only, the header (not empty, shorter than the
  reader's field limit, with or without its line ending), and an output path that can be
  opened and written, the call returns \<^verbatim>\<open>True\<close> and dumps the document whose
  \<^verbatim>\<open>exchange_rates\<close> list is empty.
\<close>

theorem header_only:
  assumes "h \<noteq> []" "list_all (\<lambda>c. c \<noteq> CHR 0x0A \<and> c \<noteq> CHR 0x0D) h"
    and "length h < field_limit"
    and "open_r e input_file = Inr body"
    and "body = h \<or> body = h @ [CHR 0x0A] \<or> body = h @ [CHR 0x0D, CHR 0x0A] \<or>
         body = h @ [CHR 0x0D]"
    and "open_w e output_file = None" and "dump_w e output_file = None"
  shows "convert_csv_to_json e input_file output_file =
     (True,
      [OpenRead input_file, CloseRead input_file, OpenWrite output_file,
       Dump output_file (Dict [(''exchange_rates'', List [])]),
       CloseWrite output_file, Print (success_msg output_file)])"
proof -
  from header_line_one_row[OF assms(1,2,3,5)] obtain header where
    "csv_reader body = (header # [], None)"
    by auto
  from convert_ok[OF assms(4) this _ assms(6,7)] show ?thesis
    by simp
qed

theorem header_only_witness:
  "convert_csv_to_json (single_file ''in.csv'' (''Date,Currency,Rate'' @ [CHR 0x0A]))
     ''in.csv'' ''out.json'' =
     (True,
      [OpenRead ''in.csv'', CloseRead ''in.csv'', OpenWrite ''out.json'',
       Dump ''out.json'' (Dict [(''exchange_rates'', List [])]),
       CloseWrite ''out.json'', Print (success_msg ''out.json'')])"
  using header_only[of "''Date,Currency,Rate''"
      "single_file ''in.csv'' (''Date,Currency,Rate'' @ [CHR 0x0A])"
      "''in.csv''" "''Date,Currency,Rate'' @ [CHR 0x0A]" "''out.json''"]
  by (simp add: field_limit_def single_file_simps)

section \<open>Failures before the output is opened\<close>

text \<open>
  C7. When the input path cannot be opened for reading (it does not exist, or it may not be
  read), \<^verbatim>\<open>convert_csv_to_json\<close> returns \<^verbatim>\<open>False\<close> and its only effect is one printed
  line, the error message: the output file is neither opened nor written.
\<close>

theorem missing_input:
  "open_r e input_file = Inl ex \<Longrightarrow>
   convert_csv_to_json e input_file output_file = (False, [Print (error_msg ex)])"
  using convert_read_fails[OF read_phase_fail_open] by fastforce

theorem missing_input_witness:
  "open_r (single_file ''in.csv'' ''Date,Currency,Rate'') ''missing.csv''
     = Inl (Exn FileNotFoundError ''[Errno 2] No such file or directory'') \<and>
   convert_csv_to_json (single_file ''in.csv'' ''Date,Currency,Rate'')
       ''missing.csv'' ''out.json''
     = (False,
        [Print ''Erreur lors de la conversion: [Errno 2] No such file or directory''])"
  using missing_input[of "single_file ''in.csv'' ''Date,Currency,Rate''" "''missing.csv''"
      "Exn FileNotFoundError ''[Errno 2] No such file or directory''" "''out.json''"]
  by (simp add: error_msg_def single_file_def)

text \<open>
  C9. For an input file with no character at all, \<^verbatim>\<open>next(csv_reader)\<close> raises
  \<^verbatim>\<open>StopIteration\<close>: \<^verbatim>\<open>convert_csv_to_json\<close> returns \<^verbatim>\<open>False\<close>, prints the error
  line (with an empty exception text) and does not open or write the output file; no
  document with an empty list is produced.
\<close>

theorem empty_input:
  "open_r e input_file = Inr [] \<Longrightarrow>
   convert_csv_to_json e input_file output_file =
     (False, [OpenRead input_file, CloseRead input_file,
              Print ''Erreur lors de la conversion: ''])"
proof -
  assume a: "open_r e input_file = Inr []"
  have "with_csv_file [] = (Inl (Exn StopIteration []), [])"
    by (simp add: with_csv_file_def csv_reader_empty)
  then have "read_phase e input_file =
      (Inl (Exn StopIteration []), [OpenRead input_file, CloseRead input_file])"
    by (simp add: read_phase_shape[OF a])
  from convert_read_fails[OF this] show ?thesis
    by (simp add: error_msg_def)
qed

theorem empty_input_witness:
  "convert_csv_to_json (single_file ''empty.csv'' []) ''empty.csv'' ''out.json''
     = (False, [OpenRead ''empty.csv'', CloseRead ''empty.csv'',
                Print ''Erreur lors de la conversion: ''])"
  using empty_input[of "single_file ''empty.csv'' []" "''empty.csv''" "''out.json''"]
  by (simp add: single_file_simps)

text \<open>
  C8. The output file is opened and written only after the input has been read to its end
  and closed. Whenever a call opens or writes the output, the reading phase has ended
  without an exception and the closing of the input file stands before the first event
  on the output file. When the reading phase (opening the input, reading the header, the
  loop over the rows) raises an exception, the call returns \<^verbatim>\<open>False\<close> and no event
  touches the output file.
\<close>

theorem output_after_input:
  "convert_csv_to_json e input_file output_file = (ok, evs) \<Longrightarrow>
     (filter is_write evs \<noteq> [] \<longrightarrow>
        (\<exists>rates. fst (read_phase e input_file) = Inr rates) \<and>
        CloseRead input_file \<in> set (takeWhile (\<lambda>ev. \<not> is_write ev) evs)) \<and>
     (\<forall>ex. fst (read_phase e input_file) = Inl ex \<longrightarrow> \<not> ok \<and> filter is_write evs = [])"
proof -
  assume c: "convert_csv_to_json e input_file output_file = (ok, evs)"
  obtain res evr where rp: "read_phase e input_file = (res, evr)"
    by (cases "read_phase e input_file")
  have nw: "filter is_write evr = []"
    using read_phase_no_write[of e input_file] rp by simp
  show ?thesis
  proof (cases res)
    case (Inl ex)
    then show ?thesis
      using c rp nw convert_read_fails[of e input_file ex evr output_file] by auto
  next
    case (Inr rates)
    obtain body where op: "open_r e input_file = Inr body"
      using read_phase_Inr_opened[of e input_file rates] rp Inr by auto
    have cl: "CloseRead input_file \<in> set evr"
      using read_phase_shape[OF op] rp by simp
    have nw': "\<And>ev. ev \<in> set evr \<Longrightarrow> \<not> is_write ev"
      using nw by (simp add: filter_empty_conv)
    have tw: "\<And>rest. takeWhile (\<lambda>ev. \<not> is_write ev) (evr @ OpenWrite output_file # rest) = evr"
      using nw' by simp
    show ?thesis
    proof (cases "open_w e output_file")
      case (Some ex)
      have "evs = evr @ [Print (error_msg ex)]"
        using convert_open_w_fails[of e input_file rates evr output_file ex] rp Inr Some c
        by simp
      then show ?thesis using nw rp Inr by simp
    next
      case None
      show ?thesis
      proof (cases "dump_w e output_file")
        case (Some ex)
        have "evs = evr @ OpenWrite output_file # [CloseWrite output_file, Print (error_msg ex)]"
          using convert_dump_fails[of e input_file rates evr output_file ex] rp Inr None Some c
          by simp
        then have "takeWhile (\<lambda>ev. \<not> is_write ev) evs = evr"
          using tw by simp
        then show ?thesis using cl rp Inr by simp
      next
        case dn: None
        have "evs = evr @ OpenWrite output_file # [Dump output_file (json_data rates),
                     CloseWrite output_file, Print (success_msg output_file)]"
          using convert_succeeds[of e input_file rates evr output_file] rp Inr None dn c
          by simp
        then have "takeWhile (\<lambda>ev. \<not> is_write ev) evs = evr"
          using tw by simp
        then show ?thesis using cl rp Inr by simp
      qed
    qed
  qed
qed

theorem output_after_input_witness:
  "convert_csv_to_json (single_file ''in.csv'' ''h\<newline>'') ''in.csv'' ''out.json'' =
     (True,
      [OpenRead ''in.csv'', CloseRead ''in.csv'', OpenWrite ''out.json'',
       Dump ''out.json'' (Dict [(''exchange_rates'', List [])]),
       CloseWrite ''out.json'', Print (success_msg ''out.json'')]) \<and>
   (\<exists>rates. fst (read_phase (single_file ''in.csv'' ''h\<newline>'') ''in.csv'') = Inr rates) \<and>
   CloseRead ''in.csv'' \<in> set (takeWhile (\<lambda>ev. \<not> is_write ev)
      [OpenRead ''in.csv'', CloseRead ''in.csv'', OpenWrite ''out.json'',
       Dump ''out.json'' (Dict [(''exchange_rates'', List [])]),
       CloseWrite ''out.json'', Print (success_msg ''out.json'')])"
proof -
  let ?e = "single_file ''in.csv'' ''h\<newline>''"
  have c: "convert_csv_to_json ?e ''in.csv'' ''out.json'' =
     (True,
      [OpenRead ''in.csv'', CloseRead ''in.csv'', OpenWrite ''out.json'',
       Dump ''out.json'' (Dict [(''exchange_rates'', List [])]),
       CloseWrite ''out.json'', Print (success_msg ''out.json'')])"
    using convert_ok[of ?e "''in.csv''", OF _ csv_reader_h, of "''out.json''"]
    by (simp add: single_file_simps)
  from output_after_input[OF c] c show ?thesis
    by simp
qed

text \<open>
  C1. A row of more than three fields passes the test of line 26 (at least three columns)
  and then fails at line 27, which unpacks the row into exactly three names: the
  \<^verbatim>\<open>ValueError\<close> is caught by the handler of line 62, the call returns \<^verbatim>\<open>False\<close>, no
  entry is kept and the output file is neither opened nor written. Here the file holds
  the header and one row of four fields.
\<close>

theorem extra_field_aborts:
  "convert_csv_to_json
     (single_file ''in.csv'' ''Date,Currency,Rate\<newline>01/15/2023,USD,1.0732,extra\<newline>'')
     ''in.csv'' ''out.json'' =
     (False,
      [OpenRead ''in.csv'', CloseRead ''in.csv'',
       Print ''Erreur lors de la conversion: too many values to unpack (expected 3)''])"
  using convert_long_row[of
      "single_file ''in.csv'' ''Date,Currency,Rate\<newline>01/15/2023,USD,1.0732,extra\<newline>''"
      "''in.csv''", OF _ ex_four_fields, of "''out.json''"]
  by (simp add: single_file_simps)

section \<open>The command line\<close>

text \<open>
  C6. When the script is run with a number of arguments other than two (so that
  \<^verbatim>\<open>sys.argv\<close> does not hold three items), it prints the usage message and does nothing
  else: no file is opened, read or written. The exit status is 0, the one every other run
  of the script ends with.
\<close>

theorem usage_error:
  "length argv \<noteq> 3 \<Longrightarrow>
   run_script e argv = ([Print usage_msg], 0) \<and> snd (run_script e argv') = 0"
  by (simp add: run_script_def main_def)

theorem usage_error_witness:
  "length [''csvtojson.py'', ''in.csv''] \<noteq> 3 \<and>
   run_script (single_file ''in.csv'' ''h\<newline>'') [''csvtojson.py'', ''in.csv'']
     = ([Print ''Usage: python convert_exchange_rates.py input.csv output.json''], 0) \<and>
   snd (run_script (single_file ''in.csv'' ''h\<newline>'')
          [''csvtojson.py'', ''in.csv'', ''out.json'']) = 0"
  using usage_error[of "[''csvtojson.py'', ''in.csv'']" "single_file ''in.csv'' ''h\<newline>''"
      "[''csvtojson.py'', ''in.csv'', ''out.json'']"]
  by (simp add: usage_msg_def)

end
